theory Spec2Isabelle
  imports Main "HOL-Library.AList" "HOL-Library.Char_ord" "HOL-Library.List_Lexorder"
    "HOL-Library.Multiset"
begin

section \<open>Values of the Go runtime and of the Kubernetes and Prow APIs\<close>

text \<open>
  A Go panic is a value of its own, kept apart from the \<open>error\<close> values that the
  functions of the repository return: indexing an empty slice and following a nil
  pointer are the two panics the modelled code can raise.
\<close>

datatype panic = IndexOutOfRange | NilPointerDereference

text \<open>
  The fields of \<open>k8s.io/api/core/v1\<close> that the repository reads or writes. A Go
  pointer that may be nil is an \<open>option\<close>; a slice read as a value is a list
  (a nil and an empty slice are the same list, as they are for
  \<open>equality.Semantic.DeepEqual\<close>).
\<close>

record ConfigMapKeySelector =
  cmks_Name :: string
  cmks_Key :: string

record EnvVarSource =
  ConfigMapKeyRef :: "ConfigMapKeySelector option"

record EnvVar =
  env_Name :: string
  env_Value :: string
  ValueFrom :: "EnvVarSource option"

record VolumeMount =
  vm_Name :: string
  SubPath :: string

record Container =
  Command :: "string list"
  Args :: "string list"
  Env :: "EnvVar list"
  VolumeMounts :: "VolumeMount list"

record VolumeProjection =
  vp_ConfigMap :: "string option"

record Volume =
  vol_Name :: string
  vol_ConfigMap :: "string option"
  Projected :: "VolumeProjection list option"

record PodSpec =
  Containers :: "Container list"
  Volumes :: "Volume list"

text \<open>
  \<open>prowconfig.Presubmit\<close> and \<open>prowconfig.Periodic\<close>: the fields the repository
  uses. \<open>Spec\<close> is a pointer to a pod spec; \<open>Labels\<close> is a Go map, here an
  association list with \<open>map_of\<close> as lookup and \<open>AList.update\<close> as assignment.
\<close>

record Presubmit =
  Name :: string
  Agent :: string
  Branches :: "string list"
  Context :: string
  RerunCommand :: string
  Optional :: bool
  Labels :: "(string \<times> string) list"
  Spec :: "PodSpec option"

record Periodic =
  per_Name :: string
  per_Agent :: string
  per_Labels :: "(string \<times> string) list"
  per_Spec :: "PodSpec option"

text \<open>\<open>pjapi.KubernetesAgent\<close>, the only agent whose jobs are rehearsed.\<close>

definition KubernetesAgent :: string where
  "KubernetesAgent = ''kubernetes''"

text \<open>The zero value of \<open>prowconfig.Presubmit\<close>: what a Go map returns for a missing key.\<close>

definition zero_Presubmit :: Presubmit where
  "zero_Presubmit = \<lparr>Name = [], Agent = [], Branches = [], Context = [],
     RerunCommand = [], Optional = False, Labels = [], Spec = None\<rparr>"

text \<open>
  \<open>pjapi.ProwJob\<close>: the object name given by the backend, the name of the job it
  runs and its state. The six states are the constants of \<open>pjapi.ProwJobState\<close>.
\<close>

datatype ProwJobState =
  TriggeredState | PendingState | SuccessState | FailureState | AbortedState | ErrorState

record ProwJob =
  pj_Name :: string
  pj_Job :: string
  pj_State :: ProwJobState

section \<open>Slices of strings with a backing array\<close>

text \<open>
  The three lists of \<open>ExecutionMetrics\<close> are Go slices, and \<open>waitForJobs\<close> appends
  to one of them and stores the result in another, so two of them may share a backing
  array. A slice is therefore a window (array, length, capacity) on an array of a
  store. \<open>append\<close> writes in place while the capacity allows it and otherwise
  allocates a new array; how much spare room the runtime adds to a new array is not
  fixed by the language, so it is the parameter \<open>spare\<close>.
\<close>

record slice =
  arr :: nat
  len :: nat
  cap :: nat

type_synonym store = "string list list"

definition nil_slice :: slice where
  "nil_slice = \<lparr>arr = 0, len = 0, cap = 0\<rparr>"

definition elems :: "store \<Rightarrow> slice \<Rightarrow> string list" where
  "elems st s = (if len s = 0 then [] else take (len s) (st ! arr s))"

definition append_go :: "(nat \<Rightarrow> nat) \<Rightarrow> store \<Rightarrow> slice \<Rightarrow> string \<Rightarrow> store \<times> slice" where
  "append_go spare st s x =
     (if len s < cap s
      then (st[arr s := (st ! arr s)[len s := x]], s\<lparr>len := Suc (len s)\<rparr>)
      else (st @ [elems st s @ x # replicate (spare (Suc (len s))) []],
            \<lparr>arr = length st, len = Suc (len s),
             cap = Suc (len s) + spare (Suc (len s))\<rparr>))"

section \<open>The executor (\<open>pkg/rehearse/jobs.go\<close>)\<close>

record ExecutionMetrics =
  SubmittedRehearsals :: slice
  PassedRehearsals :: slice
  FailedRehearsals :: slice

text \<open>
  What the executor sends to its ProwJob client. A \<open>Create\<close> carries the job spec
  built by \<open>pjutil.PresubmitSpec\<close> or \<open>pjutil.PeriodicSpec\<close> (its type and job
  name) and the copied labels; a \<open>Watch\<close> carries the label selector.
\<close>

datatype jobtype = PresubmitJob | PeriodicJob

record request =
  req_Type :: jobtype
  req_Job :: string
  req_Labels :: "(string \<times> string) list"

datatype call = Create request | Watch string

text \<open>
  The mutable state of one run: the metrics with the store their slices live in, the
  calls made on the client so far, and the documents printed by \<open>printAsYaml\<close>.
\<close>

record world =
  Metrics :: ExecutionMetrics
  strs :: store
  calls :: "call list"
  printed :: "ProwJob list list"

record Executor =
  dryRun :: bool
  presubmits :: "Presubmit list"
  periodics :: "Periodic list"
  prNumber :: int

text \<open>\<open>NewExecutor\<close> starts from empty metrics; nothing has been called or printed.\<close>

definition new_world :: world where
  "new_world = \<lparr>Metrics = \<lparr>SubmittedRehearsals = nil_slice, PassedRehearsals = nil_slice,
       FailedRehearsals = nil_slice\<rparr>, strs = [], calls = [], printed = []\<rparr>"

text \<open>
  The client is an interface. Its \<open>Create\<close> answers a request with an error or with
  the created ProwJob, and may depend on every call made before: it is a function of
  the call history and the request.
\<close>

type_synonym creator = "call list \<Rightarrow> request \<Rightarrow> string + ProwJob"

definition presubmit_request :: "Presubmit \<Rightarrow> request" where
  "presubmit_request job = \<lparr>req_Type = PresubmitJob, req_Job = Name job, req_Labels = Labels job\<rparr>"

definition periodic_request :: "Periodic \<Rightarrow> request" where
  "periodic_request job =
     \<lparr>req_Type = PeriodicJob, req_Job = per_Name job, req_Labels = per_Labels job\<rparr>"

definition submitPresubmit :: "creator \<Rightarrow> world \<Rightarrow> Presubmit \<Rightarrow> world \<times> (string + ProwJob)" where
  "submitPresubmit create w job =
     (w\<lparr>calls := calls w @ [Create (presubmit_request job)]\<rparr>,
      create (calls w) (presubmit_request job))"

definition submitPeriodic :: "creator \<Rightarrow> world \<Rightarrow> Periodic \<Rightarrow> world \<times> (string + ProwJob)" where
  "submitPeriodic create w job =
     (w\<lparr>calls := calls w @ [Create (periodic_request job)]\<rparr>,
      create (calls w) (periodic_request job))"

text \<open>
  The two loops of \<open>submitRehearsals\<close>, one step each. The loop state is the world,
  the errors collected and the ProwJobs created. Only the presubmit loop records the
  job in \<open>SubmittedRehearsals\<close>.
\<close>

definition presubmit_step ::
  "(nat \<Rightarrow> nat) \<Rightarrow> creator \<Rightarrow> world \<times> string list \<times> ProwJob list \<Rightarrow> Presubmit
     \<Rightarrow> world \<times> string list \<times> ProwJob list" where
  "presubmit_step spare create acc job =
     (case acc of (w, errors, pjs) \<Rightarrow>
        (case submitPresubmit create w job of
           (w1, Inl err) \<Rightarrow> (w1, errors @ [err], pjs)
         | (w1, Inr created) \<Rightarrow>
             (case append_go spare (strs w1) (SubmittedRehearsals (Metrics w1)) (pj_Job created) of
                (st, sl) \<Rightarrow>
                  (w1\<lparr>Metrics := (Metrics w1)\<lparr>SubmittedRehearsals := sl\<rparr>, strs := st\<rparr>,
                   errors, pjs @ [created]))))"

definition periodic_step ::
  "creator \<Rightarrow> world \<times> string list \<times> ProwJob list \<Rightarrow> Periodic
     \<Rightarrow> world \<times> string list \<times> ProwJob list" where
  "periodic_step create acc job =
     (case acc of (w, errors, pjs) \<Rightarrow>
        (case submitPeriodic create w job of
           (w1, Inl err) \<Rightarrow> (w1, errors @ [err], pjs)
         | (w1, Inr created) \<Rightarrow> (w1, errors, pjs @ [created])))"

text \<open>
  \<open>submitRehearsals\<close> returns the created ProwJobs and \<open>kerrors.NewAggregate\<close> of the
  errors, which is nil exactly for an empty list.
\<close>

definition submitRehearsals ::
  "(nat \<Rightarrow> nat) \<Rightarrow> creator \<Rightarrow> Executor \<Rightarrow> world \<Rightarrow> world \<times> ProwJob list \<times> string list option" where
  "submitRehearsals spare create e w =
     (case foldl (periodic_step create)
             (foldl (presubmit_step spare create) (w, [], []) (presubmits e))
             (periodics e) of
        (w1, errors, pjs) \<Rightarrow> (w1, pjs, if errors = [] then None else Some errors))"

text \<open>
  An event of the watch carries a ProwJob or an object of another type. A call of
  \<open>Watch\<close> fails, or yields the events the channel delivers before it is closed.
\<close>

datatype event = ProwJobEvent ProwJob | OtherEvent

type_synonym result = "bool \<times> string option"

text \<open>
  The inner loop of \<open>waitForJobs\<close> over one channel. \<open>Inl\<close> is a return of the
  function, \<open>Inr\<close> the state with which the outer loop goes on once the channel is
  closed. A success stores in \<open>PassedRehearsals\<close> the result of appending to
  \<open>FailedRehearsals\<close>, as the source has it.
\<close>

fun watchEvents ::
  "(nat \<Rightarrow> nat) \<Rightarrow> world \<Rightarrow> string set \<Rightarrow> bool \<Rightarrow> event list
     \<Rightarrow> (world \<times> result) + (world \<times> string set \<times> bool)" where
  "watchEvents spare w jobs success [] = Inr (w, jobs, success)"
| "watchEvents spare w jobs success (OtherEvent # evs) =
     Inl (w, (False, Some ''received an object of another type from watch''))"
| "watchEvents spare w jobs success (ProwJobEvent pj # evs) =
     (if pj_Name pj \<notin> jobs then watchEvents spare w jobs success evs
      else if pj_State pj = FailureState \<or> pj_State pj = AbortedState \<or> pj_State pj = ErrorState
      then
        (case append_go spare (strs w) (FailedRehearsals (Metrics w)) (pj_Job pj) of
           (st, sl) \<Rightarrow>
             (let w1 = w\<lparr>Metrics := (Metrics w)\<lparr>FailedRehearsals := sl\<rparr>, strs := st\<rparr>
              in if jobs - {pj_Name pj} = {} then Inl (w1, (False, None))
                 else watchEvents spare w1 (jobs - {pj_Name pj}) False evs))
      else if pj_State pj = SuccessState
      then
        (case append_go spare (strs w) (FailedRehearsals (Metrics w)) (pj_Job pj) of
           (st, sl) \<Rightarrow>
             (let w1 = w\<lparr>Metrics := (Metrics w)\<lparr>PassedRehearsals := sl\<rparr>, strs := st\<rparr>
              in if jobs - {pj_Name pj} = {} then Inl (w1, (success, None))
                 else watchEvents spare w1 (jobs - {pj_Name pj}) success evs))
      else watchEvents spare w jobs success evs)"

text \<open>
  The outer loop opens a watch per round. The answers of the successive \<open>Watch\<close>
  calls are given as a list; when they are used up while jobs are still awaited the
  function has not returned (the source blocks on the channel), which is \<open>None\<close>.
\<close>

fun watchLoop ::
  "(nat \<Rightarrow> nat) \<Rightarrow> world \<Rightarrow> string set \<Rightarrow> bool \<Rightarrow> string \<Rightarrow> (string + event list) list
     \<Rightarrow> (world \<times> result) option" where
  "watchLoop spare w jobs success selector [] = None"
| "watchLoop spare w jobs success selector (r # rs) =
     (let w1 = w\<lparr>calls := calls w @ [Watch selector]\<rparr>
      in case r of
           Inl err \<Rightarrow> Some (w1, (False, Some (''failed to create watch for ProwJobs: '' @ err)))
         | Inr evs \<Rightarrow>
             (case watchEvents spare w1 jobs success evs of
                Inl res \<Rightarrow> Some res
              | Inr (w2, jobs2, success2) \<Rightarrow> watchLoop spare w2 jobs2 success2 selector rs))"

definition waitForJobs ::
  "(nat \<Rightarrow> nat) \<Rightarrow> world \<Rightarrow> string set \<Rightarrow> string \<Rightarrow> (string + event list) list
     \<Rightarrow> (world \<times> result) option" where
  "waitForJobs spare w jobs selector ws =
     (if jobs = {} then Some (w, (True, None))
      else watchLoop spare w jobs True selector ws)"

text \<open>
  \<open>printAsYaml\<close> sorts the ProwJobs by job name and prints them as one YAML
  document. Go compares strings byte by byte, a proper prefix first: this is the
  lexicographic order of \<open>List_Lexorder\<close> over the order of characters by code of
  \<open>Char_ord\<close>. \<open>sort.Slice\<close> is not stable, so among ProwJobs of one job name any
  order may come out; the model takes the stable one, and the properties below use
  only that the document is sorted by job name and has the same ProwJobs.
  \<open>yaml.Marshal\<close> of ProwJob records is taken to succeed (\<open>ExecuteJobs\<close> drops
  the error that \<open>printAsYaml\<close> returns).
\<close>

definition printAsYaml :: "world \<Rightarrow> ProwJob list \<Rightarrow> world" where
  "printAsYaml w pjs = w\<lparr>printed := printed w @ [sort_key pj_Job pjs]\<rparr>"

text \<open>
  \<open>ExecuteJobs\<close>. The label selector comes from \<open>labels.NewRequirement\<close> of
  \<open>k8s.io/apimachinery\<close>, which may reject its arguments: \<open>mkSelector\<close> is that
  library function applied to the rehearsal label and the pull request number.
\<close>

definition ExecuteJobs ::
  "(nat \<Rightarrow> nat) \<Rightarrow> creator \<Rightarrow> (int \<Rightarrow> string + string) \<Rightarrow> (string + event list) list
     \<Rightarrow> Executor \<Rightarrow> world \<Rightarrow> (world \<times> result) option" where
  "ExecuteJobs spare create mkSelector ws e w =
     (case submitRehearsals spare create e w of
        (w1, pjs, err) \<Rightarrow>
          (if dryRun e
           then Some (printAsYaml w1 pjs,
                      (True, if err = None then None
                             else Some ''failed to submit all rehearsal jobs''))
           else
             (case mkSelector (prNumber e) of
                Inl serr \<Rightarrow> Some (w1, (False, Some (''failed to create label selector: '' @ serr)))
              | Inr selector \<Rightarrow>
                  (case waitForJobs spare w1 (set (map pj_Name pjs)) selector ws of
                     None \<Rightarrow> None
                   | Some (w2, (waitSuccess, werr)) \<Rightarrow>
                       Some (w2, (waitSuccess,
                                  if err \<noteq> None then Some ''failed to submit all rehearsal jobs''
                                  else werr))))))"

text \<open>
  The requests one run sends, in order, and the answers of the client to a list of
  requests sent one after the other from a given call history.
\<close>

definition requests :: "Executor \<Rightarrow> request list" where
  "requests e = map presubmit_request (presubmits e) @ map periodic_request (periodics e)"

fun answers :: "creator \<Rightarrow> call list \<Rightarrow> request list \<Rightarrow> (string + ProwJob) list" where
  "answers create cs [] = []"
| "answers create cs (r # rs) = create cs r # answers create (cs @ [Create r]) rs"

subsection \<open>Example runs\<close>

text \<open>
  A client that creates every ProwJob it is asked for, one that rejects every request,
  a runtime that allocates no spare capacity, a selector, and executors of a dry run, of
  a run with one periodic, and of a run with a presubmit and a periodic.
\<close>

definition accept_all :: creator where
  "accept_all cs r = Inr \<lparr>pj_Name = ''uid-'' @ req_Job r, pj_Job = req_Job r, pj_State = TriggeredState\<rparr>"

definition reject_all :: creator where
  "reject_all cs r = Inl ''rejected''"

definition no_spare :: "nat \<Rightarrow> nat" where
  "no_spare n = 0"

definition fixed_selector :: "int \<Rightarrow> string + string" where
  "fixed_selector n = Inr ''ci.openshift.org/rehearse=1234''"

definition rehearsal_presubmit :: Presubmit where
  "rehearsal_presubmit = \<lparr>Name = ''rehearse-1234-unit'', Agent = ''kubernetes'',
     Branches = [''master''], Context = ''ci/rehearse/org/repo/master/unit'',
     RerunCommand = ''/test pj-rehearse'', Optional = True,
     Labels = [(''ci.openshift.org/rehearse'', ''1234'')], Spec = None\<rparr>"

definition rehearsal_periodic :: Periodic where
  "rehearsal_periodic = \<lparr>per_Name = ''rehearse-1234-nightly'', per_Agent = ''kubernetes'',
     per_Labels = [(''ci.openshift.org/rehearse'', ''1234'')], per_Spec = None\<rparr>"

definition dry_executor :: Executor where
  "dry_executor = \<lparr>dryRun = True, presubmits = [rehearsal_presubmit], periodics = [],
     prNumber = 1234\<rparr>"

definition periodic_executor :: Executor where
  "periodic_executor = \<lparr>dryRun = False, presubmits = [], periodics = [rehearsal_periodic],
     prNumber = 1234\<rparr>"

definition rejected_executor :: Executor where
  "rejected_executor = \<lparr>dryRun = False, presubmits = [rehearsal_presubmit],
     periodics = [rehearsal_periodic], prNumber = 1234\<rparr>"



section \<open>Collections of presubmits and of build configurations (\<open>pkg/config\<close>)\<close>

text \<open>
  \<open>config.Presubmits\<close> is a Go map from a repository to its presubmits and
  \<open>config.CompoundCiopConfig\<close> a Go map from a file name to a build configuration.
  A Go map is an association list here: \<open>range\<close> visits its entries in the order of
  the list (Go leaves the order open), \<open>map_of\<close> is the lookup and \<open>AList.update\<close>
  the assignment. The keys of a Go map are distinct.
\<close>

type_synonym Presubmits = "(string \<times> Presubmit list) list"

text \<open>
  Modelled from the spec: the method \<open>Add\<close> of \<open>config.Presubmits\<close> is not among the
  sources. The spec calls the result of a selection an unordered set union of the
  selected jobs, so \<open>Add\<close> puts a job under its repository unless it is already there.
\<close>

definition Add :: "string \<Rightarrow> Presubmit \<Rightarrow> Presubmits \<Rightarrow> Presubmits" where
  "Add repo job ps =
     (case map_of ps repo of
        None \<Rightarrow> ps @ [(repo, [job])]
      | Some jobs \<Rightarrow> if job \<in> set jobs then ps else AList.update repo (jobs @ [job]) ps)"

text \<open>Whether a collection holds a job under a repository.\<close>

definition selected :: "Presubmits \<Rightarrow> string \<Rightarrow> Presubmit \<Rightarrow> bool" where
  "selected ps repo job = (case map_of ps repo of None \<Rightarrow> False | Some jobs \<Rightarrow> job \<in> set jobs)"

text \<open>
  The build configuration of \<open>ci-operator\<close> (\<open>cioperatorapi.ReleaseBuildConfiguration\<close>):
  its test steps and, standing for the fields that are not test steps, the build root,
  the images and the promotion policy.
\<close>

record TestStepConfiguration =
  As :: string
  Commands :: string
  ArtifactDir :: string

record PromotionConfiguration =
  prom_Namespace :: string
  prom_Name :: string
  Disabled :: bool

record ReleaseBuildConfiguration =
  BuildRoot :: string
  Images :: "string list"
  Promotion :: "PromotionConfiguration option"
  Tests :: "TestStepConfiguration list"

type_synonym CompoundCiopConfig = "(string \<times> ReleaseBuildConfiguration) list"

definition zero_TestStepConfiguration :: TestStepConfiguration where
  "zero_TestStepConfiguration = \<lparr>As = [], Commands = [], ArtifactDir = []\<rparr>"

section \<open>Change detection (\<open>pkg/diffs\<close>)\<close>

subsection \<open>\<open>GetChangedCiopConfigs\<close>\<close>

definition getTestsByName :: "TestStepConfiguration list \<Rightarrow> (string \<rightharpoonup> TestStepConfiguration)" where
  "getTestsByName tests = foldl (\<lambda>ret test. ret(As test \<mapsto> test)) Map.empty tests"

text \<open>Indexing a Go map: the zero value for a missing key.\<close>

definition test_at :: "(string \<rightharpoonup> TestStepConfiguration) \<Rightarrow> string \<Rightarrow> TestStepConfiguration" where
  "test_at m as = (case m as of None \<Rightarrow> zero_TestStepConfiguration | Some t \<Rightarrow> t)"

text \<open>
  The loop over \<open>newTests\<close>: each name of the new configuration once, with the test
  step the map holds for it, compared with what the old map gives for that name.
\<close>

definition changed_tests :: "ReleaseBuildConfiguration \<Rightarrow> ReleaseBuildConfiguration \<Rightarrow> string set" where
  "changed_tests oldConfig newConfig =
     (let oldTests = getTestsByName (Tests oldConfig);
          newTests = getTestsByName (Tests newConfig)
      in foldl (\<lambda>jobs as.
                  (case newTests as of
                     None \<Rightarrow> jobs
                   | Some test \<Rightarrow> if test_at oldTests as \<noteq> test then insert as jobs else jobs))
           {} (remdups (map As (Tests newConfig))))"

definition ciop_step ::
  "CompoundCiopConfig \<Rightarrow> CompoundCiopConfig \<times> (string \<times> string set) list
     \<Rightarrow> string \<times> ReleaseBuildConfiguration
     \<Rightarrow> CompoundCiopConfig \<times> (string \<times> string set) list" where
  "ciop_step masterConfig acc entry =
     (case acc of (ret, affectedJobs) \<Rightarrow>
      (case entry of (filename, newConfig) \<Rightarrow>
        (case map_of masterConfig filename of
           None \<Rightarrow> (AList.update filename newConfig ret, affectedJobs)
         | Some oldConfig \<Rightarrow>
             if oldConfig\<lparr>Tests := []\<rparr> \<noteq> newConfig\<lparr>Tests := []\<rparr>
             then (AList.update filename newConfig ret, affectedJobs)
             else
               (let jobs = changed_tests oldConfig newConfig
                in if jobs \<noteq> {}
                   then (AList.update filename newConfig ret,
                         AList.update filename jobs affectedJobs)
                   else (ret, affectedJobs)))))"

definition GetChangedCiopConfigs ::
  "CompoundCiopConfig \<Rightarrow> CompoundCiopConfig \<Rightarrow> CompoundCiopConfig \<times> (string \<times> string set) list" where
  "GetChangedCiopConfigs masterConfig prConfig = foldl (ciop_step masterConfig) ([], []) prConfig"

subsection \<open>\<open>GetChangedPresubmits\<close>\<close>

definition getJobsByRepoAndName :: "Presubmits \<Rightarrow> (string \<rightharpoonup> (string \<rightharpoonup> Presubmit))" where
  "getJobsByRepoAndName ps =
     foldl (\<lambda>jobsByRepo entry.
              (case entry of (repo, preSubmitList) \<Rightarrow>
                 jobsByRepo(repo \<mapsto> foldl (\<lambda>pm p. pm(Name p \<mapsto> p)) Map.empty preSubmitList)))
       Map.empty ps"

text \<open>
  \<open>masterJobs[repo][job.Name]\<close>: \<open>master_entry\<close> is the entry if there is one, and
  indexing gives the zero presubmit when the repository or the name is missing.
\<close>

definition master_entry :: "(string \<rightharpoonup> (string \<rightharpoonup> Presubmit)) \<Rightarrow> string \<Rightarrow> string \<Rightarrow> Presubmit option" where
  "master_entry masterJobs repo name =
     (case masterJobs repo of None \<Rightarrow> None | Some pm \<Rightarrow> pm name)"

definition job_at :: "(string \<rightharpoonup> (string \<rightharpoonup> Presubmit)) \<Rightarrow> string \<Rightarrow> string \<Rightarrow> Presubmit" where
  "job_at masterJobs repo name =
     (case master_entry masterJobs repo name of None \<Rightarrow> zero_Presubmit | Some j \<Rightarrow> j)"

definition changed_presubmit_step ::
  "(string \<rightharpoonup> (string \<rightharpoonup> Presubmit)) \<Rightarrow> string \<Rightarrow> Presubmits \<Rightarrow> Presubmit \<Rightarrow> Presubmits" where
  "changed_presubmit_step masterJobs repo ret job =
     (let masterJob = job_at masterJobs repo (Name job)
      in if Agent job = KubernetesAgent
         then if Agent masterJob \<noteq> Agent job then Add repo job ret
              else if Spec masterJob \<noteq> Spec job then Add repo job ret
              else ret
         else ret)"

definition GetChangedPresubmits :: "Presubmits \<Rightarrow> Presubmits \<Rightarrow> Presubmits" where
  "GetChangedPresubmits prowMasterConfig prowPRConfig =
     (let masterJobs = getJobsByRepoAndName prowMasterConfig
      in foldl (\<lambda>ret entry.
                  (case entry of (repo, jobs) \<Rightarrow>
                     foldl (changed_presubmit_step masterJobs repo) ret jobs))
           [] prowPRConfig)"

subsection \<open>\<open>GetPresubmitsForCiopConfigs\<close>\<close>

text \<open>\<open>strings.HasPrefix\<close>, \<open>strings.TrimPrefix\<close> and \<open>strings.Replace\<close> of "/" by "-".\<close>

definition hasPrefix :: "string \<Rightarrow> string \<Rightarrow> bool" where
  "hasPrefix s p = (take (length p) s = p)"

definition trimPrefix :: "string \<Rightarrow> string \<Rightarrow> string" where
  "trimPrefix s p = (if hasPrefix s p then drop (length p) s else s)"

definition slashes_to_dashes :: "string \<Rightarrow> string" where
  "slashes_to_dashes s = map (\<lambda>c. if c = CHR ''/'' then CHR ''-'' else c) s"

text \<open>The test name the linkage pass derives from a job name, its repository and branch.\<close>

definition derived_test_name :: "string \<Rightarrow> string \<Rightarrow> string \<Rightarrow> string" where
  "derived_test_name repo name branch =
     trimPrefix (trimPrefix name ''pull-ci-'') (slashes_to_dashes repo @ ''-'' @ branch @ ''-'')"

text \<open>
  One environment variable of one job. \<open>config.IsCiopConfigCM\<close>, which recognises the
  ConfigMaps holding build configurations, is not among the sources: it is the
  parameter \<open>isCiopConfigCM\<close>. A panic ends the whole pass.
\<close>

definition linkage_env_step ::
  "(string \<Rightarrow> bool) \<Rightarrow> CompoundCiopConfig \<Rightarrow> (string \<times> string set) list \<Rightarrow> string \<Rightarrow> Presubmit
     \<Rightarrow> panic + Presubmits \<Rightarrow> EnvVar \<Rightarrow> panic + Presubmits" where
  "linkage_env_step isCiopConfigCM ciopConfigs affectedJobs repo job acc env =
     (case acc of
        Inl p \<Rightarrow> Inl p
      | Inr ret \<Rightarrow>
          (case ValueFrom env of
             None \<Rightarrow> Inr ret
           | Some src \<Rightarrow>
               (case ConfigMapKeyRef src of
                  None \<Rightarrow> Inr ret
                | Some ref \<Rightarrow>
                    if isCiopConfigCM (cmks_Name ref)
                    then
                      (case map_of ciopConfigs (cmks_Key ref) of
                         None \<Rightarrow> Inr ret
                       | Some c \<Rightarrow>
                           (case Branches job of
                              [] \<Rightarrow> Inl IndexOutOfRange
                            | branch # bs \<Rightarrow>
                                (case map_of affectedJobs (cmks_Key ref) of
                                   None \<Rightarrow> Inr (Add repo job ret)
                                 | Some affectedJob \<Rightarrow>
                                     if derived_test_name repo (Name job) branch \<notin> affectedJob
                                     then Inr ret
                                     else Inr (Add repo job ret))))
                    else Inr ret)))"

definition linkage_job_step ::
  "(string \<Rightarrow> bool) \<Rightarrow> CompoundCiopConfig \<Rightarrow> (string \<times> string set) list \<Rightarrow> string
     \<Rightarrow> panic + Presubmits \<Rightarrow> Presubmit \<Rightarrow> panic + Presubmits" where
  "linkage_job_step isCiopConfigCM ciopConfigs affectedJobs repo acc job =
     (case acc of
        Inl p \<Rightarrow> Inl p
      | Inr ret \<Rightarrow>
          if Agent job \<noteq> KubernetesAgent then Inr ret
          else
            (case Spec job of
               None \<Rightarrow> Inl NilPointerDereference
             | Some spec \<Rightarrow>
                 (case Containers spec of
                    [] \<Rightarrow> Inl IndexOutOfRange
                  | container # cs \<Rightarrow>
                      foldl (linkage_env_step isCiopConfigCM ciopConfigs affectedJobs repo job)
                        (Inr ret) (Env container))))"


subsection \<open>Example corpora\<close>

text \<open>
  A kubernetes presubmit with a pod spec, the same job with another argument, and a
  jenkins job without a pod spec.
\<close>

definition unit_container :: Container where
  "unit_container = \<lparr>Command = [''ci-operator''], Args = [''--target=unit''], Env = [],
     VolumeMounts = []\<rparr>"

definition unit_job :: Presubmit where
  "unit_job = \<lparr>Name = ''pull-ci-org-repo-master-unit'', Agent = ''kubernetes'',
     Branches = [''master''], Context = ''ci/prow/unit'', RerunCommand = ''/test unit'',
     Optional = False, Labels = [],
     Spec = Some \<lparr>Containers = [unit_container], Volumes = []\<rparr>\<rparr>"

definition unit_job_changed :: Presubmit where
  "unit_job_changed = unit_job\<lparr>Spec := Some \<lparr>Containers =
     [unit_container\<lparr>Args := [''--target=unit'', ''--artifact-dir=/tmp'']\<rparr>], Volumes = []\<rparr>\<rparr>"

definition jenkins_job :: Presubmit where
  "jenkins_job = \<lparr>Name = ''pull-ci-org-repo-master-legacy'', Agent = ''jenkins'',
     Branches = [''master''], Context = ''ci/jenkins/legacy'', RerunCommand = ''/test legacy'',
     Optional = False, Labels = [], Spec = None\<rparr>"

text \<open>
  The affected test names of a file as the specification words them, to be compared
  with \<open>changed_tests\<close>: the names of the test steps of the candidate that the master
  configuration does not have.
\<close>

definition affected_tests :: "ReleaseBuildConfiguration \<Rightarrow> ReleaseBuildConfiguration \<Rightarrow> string set" where
  "affected_tests oldConfig newConfig = As ` (set (Tests newConfig) - set (Tests oldConfig))"

text \<open>
  What one step of the loop of \<open>GetChangedCiopConfigs\<close> decides for a file: whether
  the file is reported as changed, and the affected set it is given, if any.
\<close>

definition reported :: "CompoundCiopConfig \<Rightarrow> string \<Rightarrow> ReleaseBuildConfiguration \<Rightarrow> bool" where
  "reported masterConfig filename newConfig =
     (case map_of masterConfig filename of
        None \<Rightarrow> True
      | Some oldConfig \<Rightarrow>
          oldConfig\<lparr>Tests := []\<rparr> \<noteq> newConfig\<lparr>Tests := []\<rparr> \<or>
          changed_tests oldConfig newConfig \<noteq> {})"

definition scoped :: "CompoundCiopConfig \<Rightarrow> string \<Rightarrow> ReleaseBuildConfiguration \<Rightarrow> string set option" where
  "scoped masterConfig filename newConfig =
     (case map_of masterConfig filename of
        None \<Rightarrow> None
      | Some oldConfig \<Rightarrow>
          if oldConfig\<lparr>Tests := []\<rparr> = newConfig\<lparr>Tests := []\<rparr> \<and>
             changed_tests oldConfig newConfig \<noteq> {}
          then Some (changed_tests oldConfig newConfig) else None)"

section \<open>The eligibility filter (\<open>pkg/rehearse/jobs.go\<close>)\<close>

text \<open>
  \<open>filterJob\<close> returns nil or an error, or panics: \<open>Inr None\<close>, \<open>Inr (Some msg)\<close>
  and \<open>Inl\<close>. The loop over the arguments returns at the first match.
\<close>

definition filterJob :: "PodSpec option \<Rightarrow> bool \<Rightarrow> panic + string option" where
  "filterJob spec allowVolumes =
     (case spec of
        None \<Rightarrow> Inl NilPointerDereference
      | Some sp \<Rightarrow>
          (case Containers sp of
             [] \<Rightarrow> Inl IndexOutOfRange
           | container # cs \<Rightarrow>
               if length (Command container) \<noteq> 1 \<or> Command container ! 0 \<noteq> ''ci-operator''
               then Inr (Some ''cannot rehearse jobs that have Command different from simple 'ci-operator' '')
               else if list_ex (\<lambda>arg. hasPrefix arg ''--git-ref'' \<or> hasPrefix arg ''-git-ref'')
                         (Args container)
               then Inr (Some ''cannot rehearse jobs that call ci-operator with '--git-ref' arg'')
               else if length (Volumes sp) > 0 \<and> \<not> allowVolumes
               then Inr (Some ''jobs that need additional volumes mounted are not allowed'')
               else Inr None))"

definition filter_presubmit_step ::
  "bool \<Rightarrow> string \<Rightarrow> panic + Presubmits \<Rightarrow> Presubmit \<Rightarrow> panic + Presubmits" where
  "filter_presubmit_step allowVolumes repo acc job =
     (case acc of
        Inl p \<Rightarrow> Inl p
      | Inr kept \<Rightarrow>
          if length (Branches job) = 0 then Inr kept
          else if length (Branches job) \<noteq> 1 then Inr kept
          else
            (case filterJob (Spec job) allowVolumes of
               Inl p \<Rightarrow> Inl p
             | Inr (Some err) \<Rightarrow> Inr kept
             | Inr None \<Rightarrow> Inr (Add repo job kept)))"

definition filter_periodic_step ::
  "bool \<Rightarrow> panic + Periodic list \<Rightarrow> Periodic \<Rightarrow> panic + Periodic list" where
  "filter_periodic_step allowVolumes acc periodic =
     (case acc of
        Inl p \<Rightarrow> Inl p
      | Inr keptPeriodics \<Rightarrow>
          (case filterJob (per_Spec periodic) allowVolumes of
             Inl p \<Rightarrow> Inl p
           | Inr (Some err) \<Rightarrow> Inr keptPeriodics
           | Inr None \<Rightarrow> Inr (keptPeriodics @ [periodic])))"

definition filterJobs ::
  "Presubmits \<Rightarrow> Periodic list \<Rightarrow> bool \<Rightarrow> panic + (Presubmits \<times> Periodic list)" where
  "filterJobs changedPresubmits changedPeriodics allowVolumes =
     (case foldl (\<lambda>acc entry.
                    (case entry of (repo, jobs) \<Rightarrow>
                       foldl (filter_presubmit_step allowVolumes repo) acc jobs))
             (Inr []) changedPresubmits of
        Inl p \<Rightarrow> Inl p
      | Inr kept \<Rightarrow>
          (case foldl (filter_periodic_step allowVolumes) (Inr []) changedPeriodics of
             Inl p \<Rightarrow> Inl p
           | Inr keptPeriodics \<Rightarrow> Inr (kept, keptPeriodics)))"

text \<open>
  The precondition of \<open>filterJob\<close>: the pod spec is there and has a container.
\<close>

definition has_container :: "PodSpec option \<Rightarrow> bool" where
  "has_container spec = (case spec of None \<Rightarrow> False | Some sp \<Rightarrow> Containers sp \<noteq> [])"

text \<open>
  The eligibility of a pod spec as the specification words it, to be compared with
  \<open>filterJob\<close>: the command of the first container is the single word
  \<open>ci-operator\<close>, no argument starts with a \<open>git-ref\<close> option (written with two
  dashes or with one), and the spec has no volumes unless volumes are allowed.
\<close>

definition eligible :: "PodSpec option \<Rightarrow> bool \<Rightarrow> bool" where
  "eligible spec allowVolumes =
     (case spec of
        None \<Rightarrow> False
      | Some sp \<Rightarrow>
          (case Containers sp of
             [] \<Rightarrow> False
           | container # cs \<Rightarrow>
               Command container = [''ci-operator''] \<and>
               (\<forall>arg \<in> set (Args container).
                  \<not> hasPrefix arg ''--git-ref'' \<and> \<not> hasPrefix arg ''-git-ref'') \<and>
               (Volumes sp = [] \<or> allowVolumes)))"

text \<open>
  Example jobs: the unit job over two branches, with a \<open>git-ref\<close> argument, and as a
  jenkins job; a periodic, and the same periodic with a volume.
\<close>

definition two_branch_job :: Presubmit where
  "two_branch_job = unit_job\<lparr>Name := ''pull-ci-org-repo-unit'',
     Branches := [''master'', ''release-4.0'']\<rparr>"

definition gitref_job :: Presubmit where
  "gitref_job = unit_job\<lparr>Name := ''pull-ci-org-repo-master-pinned'',
     Spec := Some \<lparr>Containers = [unit_container\<lparr>Args := [''--git-ref=org/repo@master'']\<rparr>],
       Volumes = []\<rparr>\<rparr>"

definition jenkins_unit_job :: Presubmit where
  "jenkins_unit_job = unit_job\<lparr>Agent := ''jenkins''\<rparr>"

definition nightly_job :: Periodic where
  "nightly_job = \<lparr>per_Name = ''periodic-ci-org-repo-nightly'', per_Agent = ''kubernetes'',
     per_Labels = [], per_Spec = Some \<lparr>Containers = [unit_container], Volumes = []\<rparr>\<rparr>"

definition nightly_volume_job :: Periodic where
  "nightly_volume_job = \<lparr>per_Name = ''periodic-ci-org-repo-nightly-e2e'',
     per_Agent = ''kubernetes'', per_Labels = [],
     per_Spec = Some \<lparr>Containers = [unit_container],
       Volumes = [\<lparr>vol_Name = ''cluster-profile'', vol_ConfigMap = None, Projected = None\<rparr>]\<rparr>\<rparr>"





text \<open>
  An example: a build configuration with a unit test, the same configuration with an
  additional e2e test, a recogniser of the ConfigMap \<open>ci-operator-configs\<close>, and the
  presubmit generated for a test of that configuration.
\<close>

definition unit_step :: TestStepConfiguration where
  "unit_step = \<lparr>As = ''unit'', Commands = ''make test-unit'', ArtifactDir = ''/tmp/artifacts''\<rparr>"

definition e2e_step :: TestStepConfiguration where
  "e2e_step = \<lparr>As = ''e2e'', Commands = ''make test-e2e'', ArtifactDir = ''/tmp/artifacts''\<rparr>"

definition master_build_config :: ReleaseBuildConfiguration where
  "master_build_config = \<lparr>BuildRoot = ''openshift/release:golang-1.10'', Images = [],
     Promotion = None, Tests = [unit_step]\<rparr>"

definition pr_build_config :: ReleaseBuildConfiguration where
  "pr_build_config = master_build_config\<lparr>Tests := [unit_step, e2e_step]\<rparr>"





section \<open>Properties of the executor\<close>

lemma presubmit_fold:
  "foldl (presubmit_step spare create) (w, es, ps) js = (w', es', ps') \<Longrightarrow>
     calls w' = calls w @ map Create (map presubmit_request js) \<and>
     es' = es @ [e. Inl e \<leftarrow> answers create (calls w) (map presubmit_request js)] \<and>
     ps' = ps @ [p. Inr p \<leftarrow> answers create (calls w) (map presubmit_request js)] \<and>
     printed w' = printed w \<and>
     PassedRehearsals (Metrics w') = PassedRehearsals (Metrics w) \<and>
     FailedRehearsals (Metrics w') = FailedRehearsals (Metrics w)"
proof (induction js arbitrary: w es ps)
  case Nil
  then show ?case by simp
next
  case (Cons j js)
  obtain w1 es1 ps1 where step: "presubmit_step spare create (w, es, ps) j = (w1, es1, ps1)"
    by (cases "presubmit_step spare create (w, es, ps) j") auto
  from step have s1: "calls w1 = calls w @ [Create (presubmit_request j)]"
    and s2: "printed w1 = printed w"
    and s3: "PassedRehearsals (Metrics w1) = PassedRehearsals (Metrics w)"
    and s4: "FailedRehearsals (Metrics w1) = FailedRehearsals (Metrics w)"
    and s5: "es1 = es @ [e. Inl e \<leftarrow> [create (calls w) (presubmit_request j)]]"
    and s6: "ps1 = ps @ [p. Inr p \<leftarrow> [create (calls w) (presubmit_request j)]]"
    by (auto simp: presubmit_step_def submitPresubmit_def split: sum.splits prod.splits)
  from Cons.prems step have "foldl (presubmit_step spare create) (w1, es1, ps1) js = (w', es', ps')"
    by simp
  from Cons.IH[OF this] show ?case
    using s1 s2 s3 s4 s5 s6 by simp
qed

lemma periodic_fold:
  "foldl (periodic_step create) (w, es, ps) js = (w', es', ps') \<Longrightarrow>
     calls w' = calls w @ map Create (map periodic_request js) \<and>
     es' = es @ [e. Inl e \<leftarrow> answers create (calls w) (map periodic_request js)] \<and>
     ps' = ps @ [p. Inr p \<leftarrow> answers create (calls w) (map periodic_request js)] \<and>
     printed w' = printed w \<and> Metrics w' = Metrics w \<and> strs w' = strs w"
proof (induction js arbitrary: w es ps)
  case Nil
  then show ?case by simp
next
  case (Cons j js)
  obtain w1 es1 ps1 where step: "periodic_step create (w, es, ps) j = (w1, es1, ps1)"
    by (cases "periodic_step create (w, es, ps) j") auto
  from step have s1: "calls w1 = calls w @ [Create (periodic_request j)]"
    and s2: "printed w1 = printed w"
    and s3: "Metrics w1 = Metrics w" and s4: "strs w1 = strs w"
    and s5: "es1 = es @ [e. Inl e \<leftarrow> [create (calls w) (periodic_request j)]]"
    and s6: "ps1 = ps @ [p. Inr p \<leftarrow> [create (calls w) (periodic_request j)]]"
    by (auto simp: periodic_step_def submitPeriodic_def split: sum.splits prod.splits)
  from Cons.prems step have "foldl (periodic_step create) (w1, es1, ps1) js = (w', es', ps')"
    by simp
  from Cons.IH[OF this] show ?case
    using s1 s2 s3 s4 s5 s6 by simp
qed

lemma answers_append:
  "answers create cs (xs @ ys) = answers create cs xs @ answers create (cs @ map Create xs) ys"
  by (induction xs arbitrary: cs) auto

lemma submitRehearsals_sem:
  assumes "submitRehearsals spare create e w = (w', pjs, err)"
  shows "calls w' = calls w @ map Create (requests e)"
    and "pjs = [p. Inr p \<leftarrow> answers create (calls w) (requests e)]"
    and "err = None \<longleftrightarrow> [e. Inl e \<leftarrow> answers create (calls w) (requests e)] = []"
    and "printed w' = printed w"
    and "PassedRehearsals (Metrics w') = PassedRehearsals (Metrics w)"
    and "FailedRehearsals (Metrics w') = FailedRehearsals (Metrics w)"
proof -
  obtain w1 es1 ps1 where f1: "foldl (presubmit_step spare create) (w, [], []) (presubmits e) = (w1, es1, ps1)"
    by (cases "foldl (presubmit_step spare create) (w, [], []) (presubmits e)") auto
  obtain w2 es2 ps2 where f2: "foldl (periodic_step create) (w1, es1, ps1) (periodics e) = (w2, es2, ps2)"
    by (cases "foldl (periodic_step create) (w1, es1, ps1) (periodics e)") auto
  from assms f1 f2 have r: "w' = w2" "pjs = ps2" "err = (if es2 = [] then None else Some es2)"
    by (auto simp: submitRehearsals_def)
  note p1 = presubmit_fold[OF f1] and p2 = periodic_fold[OF f2]
  show "calls w' = calls w @ map Create (requests e)"
    using r p1 p2 by (simp add: requests_def)
  show "pjs = [p. Inr p \<leftarrow> answers create (calls w) (requests e)]"
    using r p1 p2 by (simp add: requests_def answers_append)
  show "err = None \<longleftrightarrow> [e. Inl e \<leftarrow> answers create (calls w) (requests e)] = []"
    using r p1 p2 by (simp add: requests_def answers_append)
  show "printed w' = printed w" using r p1 p2 by simp
  show "PassedRehearsals (Metrics w') = PassedRehearsals (Metrics w)" using r p1 p2 by simp
  show "FailedRehearsals (Metrics w') = FailedRehearsals (Metrics w)" using r p1 p2 by simp
qed

lemmas example_defs = accept_all_def reject_all_def no_spare_def fixed_selector_def
  rehearsal_presubmit_def rehearsal_periodic_def dry_executor_def periodic_executor_def
  rejected_executor_def presubmit_request_def periodic_request_def requests_def

lemmas exec_defs = ExecuteJobs_def submitRehearsals_def presubmit_step_def periodic_step_def
  submitPresubmit_def submitPeriodic_def waitForJobs_def printAsYaml_def new_world_def
  nil_slice_def append_go_def elems_def

text \<open>
  Counterexample to C3 as stated. A dry run does call the client: with one rehearsal
  presubmit, the calls made by \<open>ExecuteJobs\<close> are the \<open>Create\<close> of that job.
  The executor itself does not look at \<open>dryRun\<close> before submitting; a dry run is
  harmless only because \<open>NewProwJobClient\<close> hands it a fake client.
\<close>

theorem dry_run_calls_create:
  "map_option (calls \<circ> fst) (ExecuteJobs no_spare accept_all fixed_selector [] dry_executor new_world)
     = Some [Create \<lparr>req_Type = PresubmitJob, req_Job = ''rehearse-1234-unit'',
               req_Labels = [(''ci.openshift.org/rehearse'', ''1234'')]\<rparr>]"
  by (simp add: exec_defs example_defs)

text \<open>
  C3, amended. In a dry run \<open>ExecuteJobs\<close> always returns, with the result
  true. It sends one \<open>Create\<close> per rehearsal job to its client, presubmits first, and
  nothing else: no \<open>Watch\<close> is opened. It prints once: one document, sorted by job
  name, of exactly the ProwJobs that the client returned. Its error is nil exactly when
  no \<open>Create\<close> failed.
\<close>

theorem ExecuteJobs_dry_run:
  assumes "dryRun e"
  shows "\<exists>w' err doc. ExecuteJobs spare create mkSelector ws e w = Some (w', (True, err)) \<and>
           calls w' = calls w @ map Create (requests e) \<and>
           printed w' = printed w @ [doc] \<and>
           mset doc = mset [p. Inr p \<leftarrow> answers create (calls w) (requests e)] \<and>
           sorted (map pj_Job doc) \<and>
           (err = None \<longleftrightarrow> [x. Inl x \<leftarrow> answers create (calls w) (requests e)] = [])"
proof -
  obtain w1 pjs serr where sub: "submitRehearsals spare create e w = (w1, pjs, serr)"
    by (cases "submitRehearsals spare create e w") auto
  note sem = submitRehearsals_sem[OF sub]
  let ?w' = "printAsYaml w1 pjs"
  let ?err = "if serr = None then None else Some ''failed to submit all rehearsal jobs''"
  let ?doc = "sort_key pj_Job pjs"
  from sub assms have a: "ExecuteJobs spare create mkSelector ws e w = Some (?w', (True, ?err))"
    by (simp add: ExecuteJobs_def)
  have b: "calls ?w' = calls w @ map Create (requests e)"
    using sem(1) by (simp add: printAsYaml_def)
  have c: "printed ?w' = printed w @ [?doc]"
    using sem(4) by (simp add: printAsYaml_def)
  have d: "mset ?doc = mset [p. Inr p \<leftarrow> answers create (calls w) (requests e)]"
    using sem(2) by simp
  have e: "sorted (map pj_Job ?doc)"
    by simp
  have f: "(?err = None) \<longleftrightarrow> [x. Inl x \<leftarrow> answers create (calls w) (requests e)] = []"
    using sem(3) by simp
  from a b c d e f show ?thesis
    by - (rule exI[of _ ?w'], rule exI[of _ ?err], rule exI[of _ ?doc], intro conjI, assumption+)
qed

text \<open>
  Witness for C3: a dry run of one presubmit against a client that rejects everything
  makes the one call, prints an empty list and returns true with an error.
\<close>

theorem ExecuteJobs_dry_run_witness:
  "dryRun dry_executor \<and>
   (\<exists>w' err. ExecuteJobs no_spare reject_all fixed_selector [] dry_executor new_world
        = Some (w', (True, err)) \<and>
      calls w' = [Create (presubmit_request rehearsal_presubmit)] \<and>
      printed w' = [[]] \<and> err \<noteq> None)"
proof -
  have h: "dryRun dry_executor" by (simp add: dry_executor_def)
  show ?thesis
    using h ExecuteJobs_dry_run[OF h, of no_spare reject_all fixed_selector "[]" new_world]
    by (auto simp: example_defs new_world_def)
qed




text \<open>
  C1 fails on the code. For the watch-set of two jobs A and B, when B fails and then A
  succeeds, the loop returns false with failed = [B] as specified, but passed is
  [B, A] instead of [A]: the success branch appends the job to \<open>FailedRehearsals\<close>
  and stores the result in \<open>PassedRehearsals\<close>. This holds for every growth policy of
  the runtime.
\<close>

theorem waitForJobs_passed_from_failed:
  "\<exists>w. waitForJobs spare new_world {''uid-a'', ''uid-b''} selector
          [Inr [ProwJobEvent \<lparr>pj_Name = ''uid-b'', pj_Job = ''B'', pj_State = FailureState\<rparr>,
                ProwJobEvent \<lparr>pj_Name = ''uid-a'', pj_Job = ''A'', pj_State = SuccessState\<rparr>]]
        = Some (w, (False, None)) \<and>
      elems (strs w) (PassedRehearsals (Metrics w)) = [''B'', ''A''] \<and>
      elems (strs w) (FailedRehearsals (Metrics w)) = [''B'']"
  by (cases "spare (Suc 0)") (simp_all add: exec_defs insert_Diff_if)

text \<open>
  C4 fails on the code for periodics. A run with one rehearsal periodic that the client
  creates and that then succeeds: the job is submitted and awaited, the run returns
  true, and \<open>SubmittedRehearsals\<close> is still empty, since only the presubmit loop of
  \<open>submitRehearsals\<close> records what it submitted.
\<close>

theorem submitRehearsals_periodic_not_recorded:
  "\<exists>w. ExecuteJobs spare accept_all fixed_selector
          [Inr [ProwJobEvent \<lparr>pj_Name = ''uid-rehearse-1234-nightly'',
                  pj_Job = ''rehearse-1234-nightly'', pj_State = SuccessState\<rparr>]]
          periodic_executor new_world = Some (w, (True, None)) \<and>
      calls w = [Create (periodic_request rehearsal_periodic),
                 Watch ''ci.openshift.org/rehearse=1234''] \<and>
      elems (strs w) (SubmittedRehearsals (Metrics w)) = []"
  by (simp add: exec_defs example_defs)

section \<open>Properties of the presubmit diff\<close>

lemma selected_Nil [simp]: "\<not> selected [] repo job"
  by (simp add: selected_def)

lemma selected_Add:
  "selected (Add r j ps) r' j' \<longleftrightarrow> (r' = r \<and> j' = j) \<or> selected ps r' j'"
  by (auto simp: selected_def Add_def update_conv' split: option.splits if_splits)

lemma selected_changed_presubmit_step:
  "selected (changed_presubmit_step m repo ret job) r j \<longleftrightarrow>
     selected ret r j \<or>
     (r = repo \<and> j = job \<and> Agent job = KubernetesAgent \<and>
      (Agent (job_at m repo (Name job)) \<noteq> Agent job \<or> Spec (job_at m repo (Name job)) \<noteq> Spec job))"
  by (auto simp: changed_presubmit_step_def Let_def selected_Add)

lemma selected_changed_jobs:
  "selected (foldl (changed_presubmit_step m repo) ret jobs) r j \<longleftrightarrow>
     selected ret r j \<or>
     (r = repo \<and> j \<in> set jobs \<and> Agent j = KubernetesAgent \<and>
      (Agent (job_at m repo (Name j)) \<noteq> Agent j \<or> Spec (job_at m repo (Name j)) \<noteq> Spec j))"
proof (induction jobs arbitrary: ret)
  case Nil
  then show ?case by simp
next
  case (Cons a jobs)
  show ?case
    unfolding foldl_Cons Cons.IH selected_changed_presubmit_step by auto
qed

lemma selected_changed_entries:
  "selected (foldl (\<lambda>ret entry. (case entry of (repo, jobs) \<Rightarrow>
                 foldl (changed_presubmit_step m repo) ret jobs)) ret0 pr) r j \<longleftrightarrow>
     selected ret0 r j \<or>
     ((\<exists>jobs. (r, jobs) \<in> set pr \<and> j \<in> set jobs) \<and> Agent j = KubernetesAgent \<and>
      (Agent (job_at m r (Name j)) \<noteq> Agent j \<or> Spec (job_at m r (Name j)) \<noteq> Spec j))"
proof (induction pr arbitrary: ret0)
  case Nil
  then show ?case by simp
next
  case (Cons e pr)
  obtain repo jobs where e: "e = (repo, jobs)" by (cases e)
  show ?case
    unfolding foldl_Cons e prod.case Cons.IH selected_changed_jobs by auto
qed

text \<open>
  The master entry that \<open>GetChangedPresubmits\<close> compares a job with, in terms of the
  master corpus: the last presubmit of that name under the repository.
\<close>

lemma byName_fold:
  "foldl (\<lambda>pm p. pm(Name p \<mapsto> p)) pm0 l n =
     (if n \<in> Name ` set l then Some (last (filter (\<lambda>p. Name p = n) l)) else pm0 n)"
proof (induction l arbitrary: pm0)
  case Nil
  then show ?case by simp
next
  case (Cons a l)
  show ?case unfolding foldl_Cons Cons.IH
    by (auto simp: image_iff filter_empty_conv)
qed

lemma byRepo_fold:
  "distinct (map fst ps) \<Longrightarrow>
   foldl (\<lambda>jobsByRepo entry. (case entry of (repo, l) \<Rightarrow> jobsByRepo(repo \<mapsto> f l))) m0 ps r =
     (case map_of ps r of None \<Rightarrow> m0 r | Some l \<Rightarrow> Some (f l))"
proof (induction ps arbitrary: m0)
  case Nil
  then show ?case by simp
next
  case (Cons e ps)
  obtain repo l where e: "e = (repo, l)" by (cases e)
  from Cons.prems have d: "distinct (map fst ps)" and n: "repo \<notin> fst ` set ps"
    by (auto simp: e)
  from n have "map_of ps repo = None" by (simp add: map_of_eq_None_iff)
  then show ?case
    unfolding foldl_Cons e prod.case Cons.IH[OF d] by (auto split: option.splits)
qed

lemma master_entry_eq:
  assumes "distinct (map fst master)"
  shows "master_entry (getJobsByRepoAndName master) repo n =
     (case map_of master repo of None \<Rightarrow> None
      | Some l \<Rightarrow> if n \<in> Name ` set l then Some (last (filter (\<lambda>p. Name p = n) l)) else None)"
  unfolding master_entry_def getJobsByRepoAndName_def byRepo_fold[OF assms]
  by (simp add: byName_fold split: option.splits)

lemmas diff_example_defs = unit_job_def unit_job_changed_def unit_container_def jenkins_job_def
  KubernetesAgent_def zero_Presubmit_def

lemmas changed_presubmits_defs = GetChangedPresubmits_def getJobsByRepoAndName_def
  changed_presubmit_step_def job_at_def master_entry_def selected_def Add_def

text \<open>
  Counterexample to C2 as stated. A jenkins job that is only in the candidate corpus
  has no master entry and is not selected; and a job that the candidate switches from
  the kubernetes agent to jenkins differs from its master entry in the agent and is not
  selected either. \<open>GetChangedPresubmits\<close> looks only at the jobs whose agent in the
  candidate corpus is kubernetes.
\<close>

theorem jenkins_job_not_selected:
  "master_entry (getJobsByRepoAndName []) ''org/repo'' (Name jenkins_job) = None \<and>
   \<not> selected (GetChangedPresubmits [] [(''org/repo'', [jenkins_job])]) ''org/repo'' jenkins_job \<and>
   master_entry (getJobsByRepoAndName [(''org/repo'', [unit_job])]) ''org/repo''
       (Name (unit_job\<lparr>Agent := ''jenkins''\<rparr>)) = Some unit_job \<and>
   \<not> selected (GetChangedPresubmits [(''org/repo'', [unit_job])]
         [(''org/repo'', [unit_job\<lparr>Agent := ''jenkins''\<rparr>])])
       ''org/repo'' (unit_job\<lparr>Agent := ''jenkins''\<rparr>)"
  by (simp add: changed_presubmits_defs diff_example_defs)

text \<open>
  C2, amended. A presubmit is selected exactly when it is in the candidate corpus, its
  agent there is kubernetes, and either there is no master entry under the same
  repository and name, or the agent of the master entry differs, or the two pod specs
  are not equal. So a kubernetes job without a master entry is always selected, a job
  equal to its master entry never, and a job of another agent never.
\<close>

theorem GetChangedPresubmits_selected:
  "selected (GetChangedPresubmits master pr) repo job \<longleftrightarrow>
     (\<exists>jobs. (repo, jobs) \<in> set pr \<and> job \<in> set jobs) \<and> Agent job = KubernetesAgent \<and>
     (case master_entry (getJobsByRepoAndName master) repo (Name job) of
        None \<Rightarrow> True
      | Some masterJob \<Rightarrow> Agent masterJob \<noteq> Agent job \<or> Spec masterJob \<noteq> Spec job)"
proof -
  have "Agent job = KubernetesAgent \<Longrightarrow>
      (Agent (job_at (getJobsByRepoAndName master) repo (Name job)) \<noteq> Agent job \<or>
       Spec (job_at (getJobsByRepoAndName master) repo (Name job)) \<noteq> Spec job) \<longleftrightarrow>
      (case master_entry (getJobsByRepoAndName master) repo (Name job) of
         None \<Rightarrow> True
       | Some masterJob \<Rightarrow> Agent masterJob \<noteq> Agent job \<or> Spec masterJob \<noteq> Spec job)"
    by (simp add: job_at_def zero_Presubmit_def KubernetesAgent_def split: option.splits)
  then show ?thesis
    unfolding GetChangedPresubmits_def Let_def selected_changed_entries by auto
qed

text \<open>
  Witness for C2: the master corpus holds a kubernetes job, the candidate corpus the
  same job with one more argument and a new kubernetes job under another repository.
  Both candidates are selected; the unchanged job is not selected when the candidate
  corpus is the master corpus.
\<close>

theorem GetChangedPresubmits_selected_witness:
  "selected (GetChangedPresubmits [(''org/repo'', [unit_job])]
       [(''org/repo'', [unit_job_changed]), (''org/other'', [unit_job])])
     ''org/repo'' unit_job_changed \<and>
   selected (GetChangedPresubmits [(''org/repo'', [unit_job])]
       [(''org/repo'', [unit_job_changed]), (''org/other'', [unit_job])])
     ''org/other'' unit_job \<and>
   \<not> selected (GetChangedPresubmits [(''org/repo'', [unit_job])] [(''org/repo'', [unit_job])])
     ''org/repo'' unit_job"
proof -
  let ?master = "[(''org/repo'', [unit_job])]"
  let ?pr = "[(''org/repo'', [unit_job_changed]), (''org/other'', [unit_job])]"
  have m1: "master_entry (getJobsByRepoAndName ?master) ''org/repo'' (Name unit_job_changed)
      = Some unit_job"
    by (simp add: master_entry_def getJobsByRepoAndName_def diff_example_defs)
  have m2: "master_entry (getJobsByRepoAndName ?master) ''org/other'' (Name unit_job) = None"
    by (simp add: master_entry_def getJobsByRepoAndName_def diff_example_defs)
  have m3: "master_entry (getJobsByRepoAndName ?master) ''org/repo'' (Name unit_job)
      = Some unit_job"
    by (simp add: master_entry_def getJobsByRepoAndName_def diff_example_defs)
  have a: "Agent unit_job = KubernetesAgent" "Agent unit_job_changed = KubernetesAgent"
    "Spec unit_job \<noteq> Spec unit_job_changed"
    by (simp_all add: diff_example_defs)
  show ?thesis
    using GetChangedPresubmits_selected[of ?master ?pr "''org/repo''" unit_job_changed]
      GetChangedPresubmits_selected[of ?master ?pr "''org/other''" unit_job]
      GetChangedPresubmits_selected[of ?master ?master "''org/repo''" unit_job]
    by (simp add: m1 m2 m3 a)
qed


section \<open>Properties of the eligibility filter\<close>

lemma single_command: "c = [x] \<longleftrightarrow> length c = Suc 0 \<and> c ! 0 = x"
  by (cases c) auto

lemma filterJob_panics: "(\<exists>p. filterJob spec allow = Inl p) \<longleftrightarrow> \<not> has_container spec"
  by (auto simp: filterJob_def has_container_def split: option.splits list.splits)

lemma filterJob_accepts: "filterJob spec allow = Inr None \<longleftrightarrow> eligible spec allow"
  by (auto simp: filterJob_def eligible_def list_ex_iff single_command
      split: option.splits list.splits)

lemma filterJob_cases:
  assumes "has_container spec"
  shows "filterJob spec allow = Inr None \<or> (\<exists>e. filterJob spec allow = Inr (Some e))"
proof (cases "filterJob spec allow")
  case (Inl p)
  then show ?thesis using filterJob_panics[of spec allow] assms by auto
next
  case (Inr b)
  then show ?thesis by (cases b) auto
qed

lemma filter_presubmit_jobs:
  assumes "\<forall>job \<in> set jobs. length (Branches job) = 1 \<longrightarrow> has_container (Spec job)"
  shows "\<exists>kept'. foldl (filter_presubmit_step allow repo) (Inr kept) jobs = Inr kept' \<and>
     (\<forall>r j. selected kept' r j \<longleftrightarrow> selected kept r j \<or>
         (r = repo \<and> j \<in> set jobs \<and> length (Branches j) = 1 \<and> eligible (Spec j) allow))"
  using assms
proof (induction jobs arbitrary: kept)
  case Nil
  then show ?case by simp
next
  case (Cons a jobs)
  have "\<exists>k1. filter_presubmit_step allow repo (Inr kept) a = Inr k1 \<and>
      (\<forall>r j. selected k1 r j \<longleftrightarrow> selected kept r j \<or>
         (r = repo \<and> j = a \<and> length (Branches j) = 1 \<and> eligible (Spec j) allow))"
  proof (cases "length (Branches a) = 1")
    case False
    then show ?thesis by (auto simp: filter_presubmit_step_def)
  next
    case True
    with Cons.prems have "has_container (Spec a)" by simp
    from filterJob_cases[OF this, of allow] show ?thesis
    proof
      assume f: "filterJob (Spec a) allow = Inr None"
      then have "eligible (Spec a) allow" by (simp add: filterJob_accepts)
      with f True show ?thesis
        by (auto simp: filter_presubmit_step_def selected_Add)
    next
      assume "\<exists>e. filterJob (Spec a) allow = Inr (Some e)"
      then obtain e where f: "filterJob (Spec a) allow = Inr (Some e)" ..
      then have "\<not> eligible (Spec a) allow" using filterJob_accepts[of "Spec a" allow] by simp
      with f True show ?thesis
        by (auto simp: filter_presubmit_step_def)
    qed
  qed
  then obtain k1 where s: "filter_presubmit_step allow repo (Inr kept) a = Inr k1"
    and k1: "\<And>r j. selected k1 r j \<longleftrightarrow> selected kept r j \<or>
         (r = repo \<and> j = a \<and> length (Branches j) = 1 \<and> eligible (Spec j) allow)"
    by blast
  from Cons.prems have "\<forall>job \<in> set jobs. length (Branches job) = 1 \<longrightarrow> has_container (Spec job)"
    by simp
  from Cons.IH[OF this, of k1] obtain kept' where
    f: "foldl (filter_presubmit_step allow repo) (Inr k1) jobs = Inr kept'"
    and k': "\<And>r j. selected kept' r j \<longleftrightarrow> selected k1 r j \<or>
         (r = repo \<and> j \<in> set jobs \<and> length (Branches j) = 1 \<and> eligible (Spec j) allow)"
    by blast
  show ?case
    unfolding foldl_Cons s f using k1 k' by auto
qed

lemma filter_presubmit_entries:
  assumes "\<forall>(repo, jobs) \<in> set cps. \<forall>job \<in> set jobs.
             length (Branches job) = 1 \<longrightarrow> has_container (Spec job)"
  shows "\<exists>kept'. foldl (\<lambda>acc entry. (case entry of (repo, jobs) \<Rightarrow>
                       foldl (filter_presubmit_step allow repo) acc jobs)) (Inr kept) cps = Inr kept' \<and>
     (\<forall>r j. selected kept' r j \<longleftrightarrow> selected kept r j \<or>
         ((\<exists>jobs. (r, jobs) \<in> set cps \<and> j \<in> set jobs) \<and> length (Branches j) = 1 \<and>
          eligible (Spec j) allow))"
  using assms
proof (induction cps arbitrary: kept)
  case Nil
  then show ?case by simp
next
  case (Cons e cps)
  obtain repo jobs where e: "e = (repo, jobs)" by (cases e)
  from Cons.prems e have "\<forall>job \<in> set jobs. length (Branches job) = 1 \<longrightarrow> has_container (Spec job)"
    by auto
  from filter_presubmit_jobs[OF this, of allow repo kept] obtain k1 where
    s: "foldl (filter_presubmit_step allow repo) (Inr kept) jobs = Inr k1"
    and k1: "\<And>r j. selected k1 r j \<longleftrightarrow> selected kept r j \<or>
         (r = repo \<and> j \<in> set jobs \<and> length (Branches j) = 1 \<and> eligible (Spec j) allow)"
    by blast
  from Cons.prems have "\<forall>(repo, jobs) \<in> set cps. \<forall>job \<in> set jobs.
             length (Branches job) = 1 \<longrightarrow> has_container (Spec job)"
    by simp
  from Cons.IH[OF this, of k1] obtain kept' where
    f: "foldl (\<lambda>acc entry. (case entry of (repo, jobs) \<Rightarrow>
                       foldl (filter_presubmit_step allow repo) acc jobs)) (Inr k1) cps = Inr kept'"
    and k': "\<And>r j. selected kept' r j \<longleftrightarrow> selected k1 r j \<or>
         ((\<exists>jobs. (r, jobs) \<in> set cps \<and> j \<in> set jobs) \<and> length (Branches j) = 1 \<and>
          eligible (Spec j) allow)"
    by blast
  show ?case
    unfolding foldl_Cons e prod.case s f using k1 k' by auto
qed

lemma filter_periodics:
  assumes "\<forall>p \<in> set cpers. has_container (per_Spec p)"
  shows "foldl (filter_periodic_step allow) (Inr kept) cpers =
     Inr (kept @ filter (\<lambda>p. eligible (per_Spec p) allow) cpers)"
  using assms
proof (induction cpers arbitrary: kept)
  case Nil
  then show ?case by simp
next
  case (Cons a cpers)
  then have h: "has_container (per_Spec a)" by simp
  have s: "filter_periodic_step allow (Inr kept) a =
      Inr (if eligible (per_Spec a) allow then kept @ [a] else kept)"
    using filterJob_cases[OF h, of allow] filterJob_accepts[of "per_Spec a" allow]
    by (auto simp: filter_periodic_step_def)
  from Cons.prems have "\<forall>p \<in> set cpers. has_container (per_Spec p)" by simp
  from Cons.IH[OF this] show ?case
    unfolding foldl_Cons s by simp
qed

lemma filter_presubmit_jobs_Inl [simp]:
  "foldl (filter_presubmit_step allow repo) (Inl p) jobs = Inl p"
  by (induction jobs) (simp_all add: filter_presubmit_step_def)

lemma filter_presubmit_entries_Inl [simp]:
  "foldl (\<lambda>acc entry. (case entry of (repo, jobs) \<Rightarrow>
            foldl (filter_presubmit_step allow repo) acc jobs)) (Inl p) cps = Inl p"
  by (induction cps) (simp_all split: prod.splits)

lemma filter_periodics_Inl [simp]:
  "foldl (filter_periodic_step allow) (Inl p) cpers = Inl p"
  by (induction cpers) (simp_all add: filter_periodic_step_def)

lemma filter_presubmit_step_kept:
  assumes "filter_presubmit_step allow repo (Inr kept) a = Inr k1"
  shows "selected k1 r j \<longleftrightarrow> selected kept r j \<or>
         (r = repo \<and> j = a \<and> length (Branches j) = 1 \<and> eligible (Spec j) allow)"
proof (cases "length (Branches a) = 1")
  case False
  with assms show ?thesis by (auto simp: filter_presubmit_step_def split: if_splits)
next
  case True
  show ?thesis
  proof (cases "filterJob (Spec a) allow")
    case (Inl p)
    with assms True show ?thesis by (simp add: filter_presubmit_step_def)
  next
    case (Inr res)
    show ?thesis
    proof (cases res)
      case None
      with Inr have "eligible (Spec a) allow" by (simp add: filterJob_accepts)
      with assms True Inr None show ?thesis
        by (auto simp: filter_presubmit_step_def selected_Add)
    next
      case (Some e)
      with Inr have "\<not> eligible (Spec a) allow"
        using filterJob_accepts[of "Spec a" allow] by simp
      with assms True Inr Some show ?thesis
        by (auto simp: filter_presubmit_step_def)
    qed
  qed
qed

lemma filter_presubmit_jobs_kept:
  assumes "foldl (filter_presubmit_step allow repo) (Inr kept) jobs = Inr kept'"
  shows "selected kept' r j \<longleftrightarrow> selected kept r j \<or>
         (r = repo \<and> j \<in> set jobs \<and> length (Branches j) = 1 \<and> eligible (Spec j) allow)"
  using assms
proof (induction jobs arbitrary: kept)
  case Nil
  then show ?case by simp
next
  case (Cons a jobs)
  show ?case
  proof (cases "filter_presubmit_step allow repo (Inr kept) a")
    case (Inl p)
    with Cons.prems show ?thesis by simp
  next
    case (Inr k1)
    with Cons.prems have "foldl (filter_presubmit_step allow repo) (Inr k1) jobs = Inr kept'"
      by simp
    from Cons.IH[OF this] filter_presubmit_step_kept[OF Inr, of r j]
    show ?thesis by auto
  qed
qed

lemma filter_presubmit_entries_kept:
  assumes "foldl (\<lambda>acc entry. (case entry of (repo, jobs) \<Rightarrow>
            foldl (filter_presubmit_step allow repo) acc jobs)) (Inr kept) cps = Inr kept'"
  shows "selected kept' r j \<longleftrightarrow> selected kept r j \<or>
         ((\<exists>jobs. (r, jobs) \<in> set cps \<and> j \<in> set jobs) \<and> length (Branches j) = 1 \<and>
          eligible (Spec j) allow)"
  using assms
proof (induction cps arbitrary: kept)
  case Nil
  then show ?case by simp
next
  case (Cons e cps)
  obtain repo jobs where e: "e = (repo, jobs)" by (cases e)
  show ?case
  proof (cases "foldl (filter_presubmit_step allow repo) (Inr kept) jobs")
    case (Inl p)
    with Cons.prems e show ?thesis by simp
  next
    case (Inr k1)
    with Cons.prems e have "foldl (\<lambda>acc entry. (case entry of (repo, jobs) \<Rightarrow>
            foldl (filter_presubmit_step allow repo) acc jobs)) (Inr k1) cps = Inr kept'"
      by simp
    from Cons.IH[OF this] filter_presubmit_jobs_kept[OF Inr, of r j] e
    show ?thesis by auto
  qed
qed

lemma filter_periodics_kept:
  assumes "foldl (filter_periodic_step allow) (Inr kept) cpers = Inr kept'"
  shows "kept' = kept @ filter (\<lambda>p. eligible (per_Spec p) allow) cpers"
  using assms
proof (induction cpers arbitrary: kept)
  case Nil
  then show ?case by simp
next
  case (Cons a cpers)
  show ?case
  proof (cases "filterJob (per_Spec a) allow")
    case (Inl p)
    then have "filter_periodic_step allow (Inr kept) a = Inl p"
      by (simp add: filter_periodic_step_def)
    with Cons.prems show ?thesis by simp
  next
    case (Inr res)
    show ?thesis
    proof (cases res)
      case None
      with Inr have e: "eligible (per_Spec a) allow" by (simp add: filterJob_accepts)
      from Inr None have "filter_periodic_step allow (Inr kept) a = Inr (kept @ [a])"
        by (simp add: filter_periodic_step_def)
      with Cons.prems have "foldl (filter_periodic_step allow) (Inr (kept @ [a])) cpers = Inr kept'"
        by simp
      from Cons.IH[OF this] e show ?thesis by simp
    next
      case (Some err)
      with Inr have e: "\<not> eligible (per_Spec a) allow"
        using filterJob_accepts[of "per_Spec a" allow] by simp
      from Inr Some have "filter_periodic_step allow (Inr kept) a = Inr kept"
        by (simp add: filter_periodic_step_def)
      with Cons.prems have "foldl (filter_periodic_step allow) (Inr kept) cpers = Inr kept'"
        by simp
      from Cons.IH[OF this] e show ?thesis by simp
    qed
  qed
qed

lemmas filter_defs = filterJobs_def filter_presubmit_step_def filter_periodic_step_def
  filterJob_def hasPrefix_def Add_def

lemmas filter_example_defs = unit_job_def unit_container_def two_branch_job_def gitref_job_def
  jenkins_unit_job_def nightly_job_def nightly_volume_job_def

text \<open>
  Counterexample to C7 as stated. A jenkins job with one branch, the plain
  \<open>ci-operator\<close> command, no \<open>git-ref\<close> argument and no volumes is kept:
  \<open>filterJobs\<close> and \<open>filterJob\<close> never look at the agent of a job.
\<close>

theorem filterJobs_keeps_jenkins_job:
  "Agent jenkins_unit_job \<noteq> KubernetesAgent \<and>
   filterJobs [(''org/repo'', [jenkins_unit_job])] [] False
     = Inr ([(''org/repo'', [jenkins_unit_job])], [])"
  by (simp add: filter_defs filter_example_defs KubernetesAgent_def)

text \<open>
  C7, amended. What \<open>filterJobs\<close> keeps is decided job by job: a presubmit is kept
  exactly when it is among the candidates, has exactly one branch pattern and an
  eligible pod spec; the periodics kept are the candidates with an eligible pod spec,
  in their order. A pod spec is eligible when the command of its first container is the
  single word \<open>ci-operator\<close>, no argument starts with \<open>--git-ref\<close> or
  \<open>-git-ref\<close>, and it has no volumes unless volumes are allowed. The agent of a job
  plays no part. \<open>filterJobs\<close> returns whenever every presubmit with exactly one
  branch and every periodic has a pod spec with a container.
\<close>

theorem filterJobs_selects:
  "((\<forall>(repo, jobs) \<in> set changedPresubmits. \<forall>job \<in> set jobs.
        length (Branches job) = 1 \<longrightarrow> has_container (Spec job)) \<and>
    (\<forall>p \<in> set changedPeriodics. has_container (per_Spec p))
    \<longrightarrow> (\<exists>res. filterJobs changedPresubmits changedPeriodics allowVolumes = Inr res)) \<and>
   (\<forall>kept keptPeriodics.
      filterJobs changedPresubmits changedPeriodics allowVolumes = Inr (kept, keptPeriodics) \<longrightarrow>
        keptPeriodics = filter (\<lambda>p. eligible (per_Spec p) allowVolumes) changedPeriodics \<and>
        (\<forall>repo job. selected kept repo job \<longleftrightarrow>
           (\<exists>jobs. (repo, jobs) \<in> set changedPresubmits \<and> job \<in> set jobs) \<and>
           length (Branches job) = 1 \<and> eligible (Spec job) allowVolumes))"
proof (intro conjI impI allI)
  assume "(\<forall>(repo, jobs) \<in> set changedPresubmits. \<forall>job \<in> set jobs.
        length (Branches job) = 1 \<longrightarrow> has_container (Spec job)) \<and>
    (\<forall>p \<in> set changedPeriodics. has_container (per_Spec p))"
  then have h1: "\<forall>(repo, jobs) \<in> set changedPresubmits. \<forall>job \<in> set jobs.
        length (Branches job) = 1 \<longrightarrow> has_container (Spec job)"
    and h2: "\<forall>p \<in> set changedPeriodics. has_container (per_Spec p)"
    by blast+
  from filter_presubmit_entries[OF h1, of allowVolumes "[]"] obtain kept where
    f: "foldl (\<lambda>acc entry. (case entry of (repo, jobs) \<Rightarrow>
          foldl (filter_presubmit_step allowVolumes repo) acc jobs)) (Inr []) changedPresubmits
        = Inr kept"
    by auto
  show "\<exists>res. filterJobs changedPresubmits changedPeriodics allowVolumes = Inr res"
    unfolding filterJobs_def f using filter_periodics[OF h2, of allowVolumes "[]"]
    by simp
next
  fix kept keptPeriodics
  assume r: "filterJobs changedPresubmits changedPeriodics allowVolumes = Inr (kept, keptPeriodics)"
  then have f: "foldl (\<lambda>acc entry. (case entry of (repo, jobs) \<Rightarrow>
          foldl (filter_presubmit_step allowVolumes repo) acc jobs)) (Inr []) changedPresubmits
        = Inr kept"
    and g: "foldl (filter_periodic_step allowVolumes) (Inr []) changedPeriodics = Inr keptPeriodics"
    by (auto simp: filterJobs_def split: sum.splits)
  from filter_periodics_kept[OF g]
  show "keptPeriodics = filter (\<lambda>p. eligible (per_Spec p) allowVolumes) changedPeriodics"
    by simp
  fix repo job
  from filter_presubmit_entries_kept[OF f, of repo job]
  show "selected kept repo job \<longleftrightarrow>
           (\<exists>jobs. (repo, jobs) \<in> set changedPresubmits \<and> job \<in> set jobs) \<and>
           length (Branches job) = 1 \<and> eligible (Spec job) allowVolumes"
    by simp
qed

text \<open>
  Witness for C7: of four presubmits the one over two branches and the one with a
  \<open>git-ref\<close> argument are left out, the unit job and the jenkins job are kept; of two
  periodics the one with a volume is left out.
\<close>

theorem filterJobs_selects_witness:
  "\<exists>kept. filterJobs [(''org/repo'', [unit_job, two_branch_job, gitref_job, jenkins_unit_job])]
        [nightly_volume_job, nightly_job] False = Inr (kept, [nightly_job]) \<and>
     selected kept ''org/repo'' unit_job \<and>
     selected kept ''org/repo'' jenkins_unit_job \<and>
     \<not> selected kept ''org/repo'' two_branch_job \<and>
     \<not> selected kept ''org/repo'' gitref_job"
proof -
  let ?cps = "[(''org/repo'', [unit_job, two_branch_job, gitref_job, jenkins_unit_job])]"
  let ?pers = "[nightly_volume_job, nightly_job]"
  have h1: "\<forall>(repo, jobs) \<in> set ?cps. \<forall>job \<in> set jobs.
             length (Branches job) = 1 \<longrightarrow> has_container (Spec job)"
    by (simp add: has_container_def filter_example_defs)
  have h2: "\<forall>p \<in> set ?pers. has_container (per_Spec p)"
    by (simp add: has_container_def filter_example_defs)
  have e: "eligible (Spec unit_job) False" "eligible (Spec jenkins_unit_job) False"
    "\<not> eligible (Spec gitref_job) False" "length (Branches two_branch_job) \<noteq> 1"
    "length (Branches unit_job) = 1" "length (Branches jenkins_unit_job) = 1"
    "eligible (per_Spec nightly_job) False" "\<not> eligible (per_Spec nightly_volume_job) False"
    by (simp_all add: eligible_def hasPrefix_def filter_example_defs)
  note t = filterJobs_selects[of ?cps ?pers False]
  from t h1 h2 obtain kept keptPeriodics where
    r: "filterJobs ?cps ?pers False = Inr (kept, keptPeriodics)"
    by fastforce
  from t r have f: "filterJobs ?cps ?pers False
          = Inr (kept, filter (\<lambda>p. eligible (per_Spec p) False) ?pers)"
    and k: "\<And>repo job. selected kept repo job \<longleftrightarrow>
              (\<exists>jobs. (repo, jobs) \<in> set ?cps \<and> job \<in> set jobs) \<and>
              length (Branches job) = 1 \<and> eligible (Spec job) False"
    by blast+
  from f e have f': "filterJobs ?cps ?pers False = Inr (kept, [nightly_job])"
    by simp
  have "selected kept ''org/repo'' unit_job" "selected kept ''org/repo'' jenkins_unit_job"
    "\<not> selected kept ''org/repo'' two_branch_job" "\<not> selected kept ''org/repo'' gitref_job"
    using e by (simp_all add: k)
  with f' show ?thesis by blast
qed


section \<open>Properties of the linkage pass\<close>


lemma linkage_env_step_Inl [simp]:
  "linkage_env_step isC cc aff repo job (Inl p) env = Inl p"
  by (simp add: linkage_env_step_def)

lemma linkage_envs_Inl [simp]:
  "foldl (linkage_env_step isC cc aff repo job) (Inl p) envs = Inl p"
  by (induction envs) simp_all

lemma linkage_job_step_Inl [simp]:
  "linkage_job_step isC cc aff repo (Inl p) job = Inl p"
  by (simp add: linkage_job_step_def)

lemma linkage_jobs_Inl [simp]:
  "foldl (linkage_job_step isC cc aff repo) (Inl p) jobs = Inl p"
  by (induction jobs) simp_all

lemma linkage_entries_Inl [simp]:
  "foldl (\<lambda>acc entry. (case entry of (repo, jobs) \<Rightarrow>
            foldl (linkage_job_step isC cc aff repo) acc jobs)) (Inl p) pc = Inl p"
  by (induction pc) (simp_all split: prod.splits)
















section \<open>Properties of the build configuration diff\<close>

lemma getTestsByName_fold:
  "foldl (\<lambda>ret test. ret(As test \<mapsto> test)) m0 l n =
     (if n \<in> As ` set l then Some (last (filter (\<lambda>t. As t = n) l)) else m0 n)"
proof (induction l arbitrary: m0)
  case Nil
  then show ?case by simp
next
  case (Cons a l)
  show ?case unfolding foldl_Cons Cons.IH
    by (auto simp: image_iff filter_empty_conv)
qed

lemma getTestsByName_None: "getTestsByName l n = None \<longleftrightarrow> n \<notin> As ` set l"
  by (simp add: getTestsByName_def getTestsByName_fold)

lemma last_filter_distinct:
  assumes "distinct (map As l)" "t \<in> set l"
  shows "filter (\<lambda>u. As u = As t) l = [t]"
  using assms
proof (induction l)
  case Nil
  then show ?case by simp
next
  case (Cons a l)
  show ?case
  proof (cases "a = t")
    case True
    with Cons.prems have "\<forall>u \<in> set l. As u \<noteq> As t" by (auto simp: image_iff)
    then have "filter (\<lambda>u. As u = As t) l = []" by (simp add: filter_empty_conv)
    with True show ?thesis by simp
  next
    case False
    with Cons.prems have t: "t \<in> set l" and d: "distinct (map As l)" by auto
    from Cons.prems t have "As a \<noteq> As t" by (auto simp: image_iff)
    with Cons.IH[OF d t] show ?thesis by simp
  qed
qed

lemma getTestsByName_distinct:
  assumes "distinct (map As l)" "t \<in> set l"
  shows "getTestsByName l (As t) = Some t"
  using assms last_filter_distinct[OF assms]
  by (simp add: getTestsByName_def getTestsByName_fold)

lemma getTestsByName_Some:
  assumes "getTestsByName l n = Some t"
  shows "t \<in> set l \<and> As t = n"
proof -
  from assms have n: "n \<in> As ` set l" using getTestsByName_None[of l n] by auto
  then have ne: "filter (\<lambda>t. As t = n) l \<noteq> []" by (auto simp: filter_empty_conv)
  from assms n have "t = last (filter (\<lambda>t. As t = n) l)"
    by (simp add: getTestsByName_def getTestsByName_fold)
  with last_in_set[OF ne] show ?thesis by auto
qed

lemma ciop_step_eq:
  "ciop_step master (ret, aff) (f, new) =
     (if reported master f new then AList.update f new ret else ret,
      case scoped master f new of None \<Rightarrow> aff | Some s \<Rightarrow> AList.update f s aff)"
proof (cases "map_of master f")
  case None
  then show ?thesis by (simp add: ciop_step_def reported_def scoped_def)
next
  case (Some old)
  show ?thesis
  proof (cases "old\<lparr>Tests := []\<rparr> = new\<lparr>Tests := []\<rparr>")
    case False
    with Some show ?thesis by (simp add: ciop_step_def reported_def scoped_def)
  next
    case True
    with Some show ?thesis
      by (cases "changed_tests old new = {}") (simp_all add: ciop_step_def reported_def scoped_def Let_def)
  qed
qed

lemma ciop_fold:
  assumes "distinct (map fst pr)"
  shows "map_of (fst (foldl (ciop_step master) (ret0, aff0) pr)) k =
      (case map_of pr k of
         None \<Rightarrow> map_of ret0 k
       | Some new \<Rightarrow> if reported master k new then Some new else map_of ret0 k) \<and>
     map_of (snd (foldl (ciop_step master) (ret0, aff0) pr)) k =
      (case map_of pr k of
         None \<Rightarrow> map_of aff0 k
       | Some new \<Rightarrow> (case scoped master k new of None \<Rightarrow> map_of aff0 k | Some s \<Rightarrow> Some s))"
  using assms
proof (induction pr arbitrary: ret0 aff0)
  case Nil
  then show ?case by simp
next
  case (Cons e pr)
  obtain f new where e: "e = (f, new)" by (cases e)
  from Cons.prems have d: "distinct (map fst pr)" and n: "map_of pr f = None"
    by (auto simp: e map_of_eq_None_iff)
  define ret1 where "ret1 = (if reported master f new then AList.update f new ret0 else ret0)"
  define aff1 where "aff1 = (case scoped master f new of None \<Rightarrow> aff0
      | Some s \<Rightarrow> AList.update f s aff0)"
  have s: "foldl (ciop_step master) (ret0, aff0) (e # pr) = foldl (ciop_step master) (ret1, aff1) pr"
    by (simp add: e ciop_step_eq ret1_def aff1_def)
  have r1: "map_of ret1 k = (if k = f \<and> reported master f new then Some new else map_of ret0 k)"
    by (simp add: update_conv' ret1_def)
  have a1: "map_of aff1 k = (if k = f then (case scoped master f new of None \<Rightarrow> map_of aff0 k
        | Some s \<Rightarrow> Some s) else map_of aff0 k)"
    by (simp add: update_conv' aff1_def split: option.splits)
  note ih = Cons.IH[OF d, of ret1 aff1]
  show ?case
  proof (cases "k = f")
    case True
    from ih show ?thesis
      unfolding s r1 a1 using n True by (simp add: e)
  next
    case False
    from ih show ?thesis
      unfolding s r1 a1 using False by (simp add: e)
  qed
qed

lemma changed_fold:
  "foldl (\<lambda>jobs as. (case newTests as of None \<Rightarrow> jobs
            | Some test \<Rightarrow> if P as test then insert as jobs else jobs)) J ks =
     J \<union> {as \<in> set ks. \<exists>t. newTests as = Some t \<and> P as t}"
proof (induction ks arbitrary: J)
  case Nil
  then show ?case by simp
next
  case (Cons k ks)
  show ?case unfolding foldl_Cons Cons.IH
    by (auto split: option.splits)
qed

lemma changed_tests_eq:
  "changed_tests oldConfig newConfig =
     {as. \<exists>t. getTestsByName (Tests newConfig) as = Some t \<and>
               test_at (getTestsByName (Tests oldConfig)) as \<noteq> t}"
proof -
  have "as \<in> As ` set (Tests newConfig)"
    if "getTestsByName (Tests newConfig) as = Some t" for as t
    using that getTestsByName_None[of "Tests newConfig" as] by auto
  then show ?thesis
    unfolding changed_tests_def Let_def changed_fold by auto
qed

lemma changed_tests_affected:
  assumes dn: "distinct (map As (Tests new))" and do: "distinct (map As (Tests old))"
    and z: "zero_TestStepConfiguration \<notin> set (Tests new)"
  shows "changed_tests old new = affected_tests old new"
proof (rule set_eqI)
  fix as
  show "as \<in> changed_tests old new \<longleftrightarrow> as \<in> affected_tests old new"
  proof
    assume "as \<in> changed_tests old new"
    then obtain t where n: "getTestsByName (Tests new) as = Some t"
      and c: "test_at (getTestsByName (Tests old)) as \<noteq> t"
      unfolding changed_tests_eq by blast
    from getTestsByName_Some[OF n] have t: "t \<in> set (Tests new)" "As t = as" by simp_all
    have "t \<notin> set (Tests old)"
    proof
      assume "t \<in> set (Tests old)"
      from getTestsByName_distinct[OF do this] t(2) c show False
        by (simp add: test_at_def)
    qed
    with t show "as \<in> affected_tests old new"
      by (auto simp: affected_tests_def)
  next
    assume "as \<in> affected_tests old new"
    then obtain t where t: "t \<in> set (Tests new)" "t \<notin> set (Tests old)" "As t = as"
      by (auto simp: affected_tests_def)
    from getTestsByName_distinct[OF dn t(1)] t(3)
    have n: "getTestsByName (Tests new) as = Some t" by simp
    have "test_at (getTestsByName (Tests old)) as \<noteq> t"
    proof (cases "getTestsByName (Tests old) as")
      case None
      from t(1) z have "t \<noteq> zero_TestStepConfiguration" by auto
      with None show ?thesis by (simp add: test_at_def)
    next
      case (Some t')
      from getTestsByName_Some[OF Some] t(2) have "t' \<noteq> t" by auto
      with Some show ?thesis by (simp add: test_at_def)
    qed
    with n show "as \<in> changed_tests old new"
      unfolding changed_tests_eq by blast
  qed
qed

lemmas ciop_defs = GetChangedCiopConfigs_def ciop_step_def changed_tests_def getTestsByName_def
  test_at_def zero_TestStepConfiguration_def Let_def

lemmas ciop_example_defs = unit_step_def e2e_step_def master_build_config_def
  pr_build_config_def

text \<open>
  Counterexample to C5 as stated. The candidate adds a test step to a file and nothing
  is reported, when the added step is the zero value of its type: the loop compares
  each candidate step with \<open>oldTests[as]\<close>, which is the zero value when master has
  no step of that name. And when the candidate holds two steps of one name, only the
  last one is compared: a first step that master does not have goes unreported.
\<close>

theorem zero_test_step_not_reported:
  "GetChangedCiopConfigs [(''org-repo-master.yaml'', master_build_config)]
      [(''org-repo-master.yaml'',
        master_build_config\<lparr>Tests := [unit_step, zero_TestStepConfiguration]\<rparr>)] = ([], []) \<and>
   GetChangedCiopConfigs [(''org-repo-master.yaml'', master_build_config)]
      [(''org-repo-master.yaml'',
        master_build_config\<lparr>Tests := [unit_step\<lparr>Commands := ''make verify''\<rparr>, unit_step]\<rparr>)]
     = ([], [])"
  by (simp add: ciop_defs ciop_example_defs)

text \<open>
  C5, amended. For corpora in which the test steps of a file have distinct names and no
  candidate step is the zero value: a file has an entry in the affected-test-names
  mapping exactly when it is in both corpora, the two configurations with their test
  steps cleared are equal, and some test step of the candidate is not a test step of
  master; the entry is the set of the names of those steps. A file of the candidate is
  reported as changed exactly when it is absent from master, or differs in a field
  other than the test steps, or has such a test step; in the first two cases it has no
  entry in the affected-test-names mapping.
\<close>

theorem GetChangedCiopConfigs_affected:
  assumes "distinct (map fst prConfig)"
    and "\<forall>(filename, newConfig) \<in> set prConfig.
           distinct (map As (Tests newConfig)) \<and> zero_TestStepConfiguration \<notin> set (Tests newConfig)"
    and "\<forall>(filename, oldConfig) \<in> set masterConfig. distinct (map As (Tests oldConfig))"
  shows "map_of (snd (GetChangedCiopConfigs masterConfig prConfig)) filename =
           (case map_of prConfig filename of
              None \<Rightarrow> None
            | Some newConfig \<Rightarrow>
                (case map_of masterConfig filename of
                   None \<Rightarrow> None
                 | Some oldConfig \<Rightarrow>
                     if oldConfig\<lparr>Tests := []\<rparr> = newConfig\<lparr>Tests := []\<rparr> \<and>
                        affected_tests oldConfig newConfig \<noteq> {}
                     then Some (affected_tests oldConfig newConfig) else None)) \<and>
         map_of (fst (GetChangedCiopConfigs masterConfig prConfig)) filename =
           (case map_of prConfig filename of
              None \<Rightarrow> None
            | Some newConfig \<Rightarrow>
                (case map_of masterConfig filename of
                   None \<Rightarrow> Some newConfig
                 | Some oldConfig \<Rightarrow>
                     if oldConfig\<lparr>Tests := []\<rparr> \<noteq> newConfig\<lparr>Tests := []\<rparr> \<or>
                        affected_tests oldConfig newConfig \<noteq> {}
                     then Some newConfig else None))"
proof -
  note f = ciop_fold[OF assms(1), of masterConfig "[]" "[]" filename]
  show ?thesis
  proof (cases "map_of prConfig filename")
    case None
    with f show ?thesis by (simp add: GetChangedCiopConfigs_def)
  next
    case (Some new)
    then have inn: "(filename, new) \<in> set prConfig" by (rule map_of_SomeD)
    with assms(2) have dn: "distinct (map As (Tests new))"
      and z: "zero_TestStepConfiguration \<notin> set (Tests new)" by auto
    show ?thesis
    proof (cases "map_of masterConfig filename")
      case None
      with f Some show ?thesis
        by (simp add: GetChangedCiopConfigs_def reported_def scoped_def)
    next
      case (Some old)
      then have "(filename, old) \<in> set masterConfig" by (rule map_of_SomeD)
      with assms(3) have do: "distinct (map As (Tests old))" by auto
      note c = changed_tests_affected[OF dn do z]
      from f \<open>map_of prConfig filename = Some new\<close> Some show ?thesis
        by (simp add: GetChangedCiopConfigs_def reported_def scoped_def c)
    qed
  qed
qed

text \<open>
  Witness for C5: the candidate adds the test \<open>e2e\<close> to one file, changes the build
  root of a second and adds a third. All three are reported; only the first has an
  affected set, \<open>{e2e}\<close>.
\<close>

theorem GetChangedCiopConfigs_affected_witness:
  "map_of (snd (GetChangedCiopConfigs
       [(''a.yaml'', master_build_config), (''b.yaml'', master_build_config)]
       [(''a.yaml'', pr_build_config),
        (''b.yaml'', master_build_config\<lparr>BuildRoot := ''openshift/release:golang-1.11''\<rparr>),
        (''c.yaml'', pr_build_config)])) ''a.yaml'' = Some {''e2e''} \<and>
   map_of (snd (GetChangedCiopConfigs
       [(''a.yaml'', master_build_config), (''b.yaml'', master_build_config)]
       [(''a.yaml'', pr_build_config),
        (''b.yaml'', master_build_config\<lparr>BuildRoot := ''openshift/release:golang-1.11''\<rparr>),
        (''c.yaml'', pr_build_config)])) ''b.yaml'' = None \<and>
   map_of (snd (GetChangedCiopConfigs
       [(''a.yaml'', master_build_config), (''b.yaml'', master_build_config)]
       [(''a.yaml'', pr_build_config),
        (''b.yaml'', master_build_config\<lparr>BuildRoot := ''openshift/release:golang-1.11''\<rparr>),
        (''c.yaml'', pr_build_config)])) ''c.yaml'' = None \<and>
   map_of (fst (GetChangedCiopConfigs
       [(''a.yaml'', master_build_config), (''b.yaml'', master_build_config)]
       [(''a.yaml'', pr_build_config),
        (''b.yaml'', master_build_config\<lparr>BuildRoot := ''openshift/release:golang-1.11''\<rparr>),
        (''c.yaml'', pr_build_config)])) ''b.yaml''
     = Some (master_build_config\<lparr>BuildRoot := ''openshift/release:golang-1.11''\<rparr>)"
proof -
  let ?master = "[(''a.yaml'', master_build_config), (''b.yaml'', master_build_config)]"
  let ?pr = "[(''a.yaml'', pr_build_config),
        (''b.yaml'', master_build_config\<lparr>BuildRoot := ''openshift/release:golang-1.11''\<rparr>),
        (''c.yaml'', pr_build_config)]"
  have h1: "distinct (map fst ?pr)" by simp
  have h2: "\<forall>(filename, newConfig) \<in> set ?pr.
           distinct (map As (Tests newConfig)) \<and> zero_TestStepConfiguration \<notin> set (Tests newConfig)"
    by (simp add: ciop_example_defs zero_TestStepConfiguration_def)
  have h3: "\<forall>(filename, oldConfig) \<in> set ?master. distinct (map As (Tests oldConfig))"
    by (simp add: ciop_example_defs)
  have a: "affected_tests master_build_config pr_build_config = {''e2e''}"
    by (simp add: affected_tests_def ciop_example_defs)
  have c: "master_build_config\<lparr>Tests := []\<rparr> = pr_build_config\<lparr>Tests := []\<rparr>"
    "master_build_config\<lparr>Tests := []\<rparr>
       \<noteq> master_build_config\<lparr>BuildRoot := ''openshift/release:golang-1.11'', Tests := []\<rparr>"
    by (simp_all add: ciop_example_defs)
  note t = GetChangedCiopConfigs_affected[OF h1 h2 h3]
  from t[of "''a.yaml''"] t[of "''b.yaml''"] t[of "''c.yaml''"] a c
  show ?thesis by simp
qed


end
